theory Spec2Isabelle
  imports Complex_Main "HOL-Library.Char_ord" "HOL-Library.List_Lexorder" "HOL-Library.Multiset"
begin

section \<open>Values of the host language\<close>

subsection \<open>Strings\<close>

text \<open>
  A Python \<open>str\<close> is a sequence of code points. A \<^typ>\<open>char\<close> stands for a code point
  below 256, so the model covers the strings over that range. \<open>str.isspace\<close>,
  \<open>str.strip\<close> and \<open>str.lower\<close> are written out for these code points; the order on
  strings is the lexicographic order on code points, as Python compares \<open>str\<close>.
\<close>

definition isspace :: "char \<Rightarrow> bool" where
  "isspace c =
     (let n = (of_char c :: nat)
      in (9 \<le> n \<and> n \<le> 13) \<or> (28 \<le> n \<and> n \<le> 32) \<or> n = 133 \<or> n = 160)"

definition strip :: "string \<Rightarrow> string" where
  "strip s = rev (dropWhile isspace (rev (dropWhile isspace s)))"

definition lower_char :: "char \<Rightarrow> char" where
  "lower_char c =
     (let n = (of_char c :: nat)
      in if (65 \<le> n \<and> n \<le> 90) \<or> (192 \<le> n \<and> n \<le> 222 \<and> n \<noteq> 215)
         then char_of (n + 32) else c)"

definition lower :: "string \<Rightarrow> string" where
  "lower s = map lower_char s"

definition startswith :: "string \<Rightarrow> string \<Rightarrow> bool" where
  "startswith s p = (take (length p) s = p)"

text \<open>\<open>s.replace(old, "")\<close> for a one-character \<open>old\<close>.\<close>

definition remove_char :: "char \<Rightarrow> string \<Rightarrow> string" where
  "remove_char c s = filter (\<lambda>x. x \<noteq> c) s"

subsection \<open>Floats\<close>

text \<open>
  A Python \<open>float\<close> is a finite value, an infinity or NaN. Finite values are modelled
  as rationals and their addition is exact: IEEE rounding is not modelled. The
  comparisons are IEEE's: every comparison with NaN is false.
\<close>

datatype pyfloat = Fin rat | PInf | NInf | NaN

fun float_lt :: "pyfloat \<Rightarrow> pyfloat \<Rightarrow> bool" where
  "float_lt NaN _ = False"
| "float_lt _ NaN = False"
| "float_lt (Fin a) (Fin b) = (a < b)"
| "float_lt (Fin a) PInf = True"
| "float_lt (Fin a) NInf = False"
| "float_lt PInf _ = False"
| "float_lt NInf NInf = False"
| "float_lt NInf _ = True"

fun float_eq :: "pyfloat \<Rightarrow> pyfloat \<Rightarrow> bool" where
  "float_eq NaN _ = False"
| "float_eq _ NaN = False"
| "float_eq a b = (a = b)"

definition float_le :: "pyfloat \<Rightarrow> pyfloat \<Rightarrow> bool" where
  "float_le a b = (float_lt a b \<or> float_eq a b)"

definition float_gt :: "pyfloat \<Rightarrow> pyfloat \<Rightarrow> bool" where
  "float_gt a b = float_lt b a"

definition float_ge :: "pyfloat \<Rightarrow> pyfloat \<Rightarrow> bool" where
  "float_ge a b = float_le b a"

fun float_add :: "pyfloat \<Rightarrow> pyfloat \<Rightarrow> pyfloat" where
  "float_add NaN _ = NaN"
| "float_add _ NaN = NaN"
| "float_add (Fin a) (Fin b) = Fin (a + b)"
| "float_add (Fin a) PInf = PInf"
| "float_add (Fin a) NInf = NInf"
| "float_add PInf NInf = NaN"
| "float_add PInf _ = PInf"
| "float_add NInf PInf = NaN"
| "float_add NInf _ = NInf"

text \<open>Truth value of a float: zero is falsy, everything else (NaN too) is truthy.\<close>

definition float_truthy :: "pyfloat \<Rightarrow> bool" where
  "float_truthy f = (f \<noteq> Fin 0)"

text \<open>
  The \<open>amount\<close> argument is dynamically typed. It is modelled by what \<open>float(amount)\<close>
  makes of it: \<open>Num f\<close> when the conversion yields the float \<open>f\<close>, \<open>NonNumeric\<close> when it
  raises \<open>TypeError\<close> or \<open>ValueError\<close> (\<open>None\<close>, a list, a string that is no number).
\<close>

datatype pyvalue = Num pyfloat | NonNumeric

datatype conv_error = TypeOrValueError

fun py_float :: "pyvalue \<Rightarrow> conv_error + pyfloat" where
  "py_float (Num f) = Inr f"
| "py_float NonNumeric = Inl TypeOrValueError"

subsection \<open>Dates\<close>

text \<open>
  \<open>datetime.strptime(s, "%Y-%m-%d")\<close>: the library matches the regular expression
  \<open>(\d\d\d\d)-(1[0-2]|0[1-9]|[1-9])-(3[0-1]|[1-2]\d|0[1-9]|[1-9]| [1-9])\<close> at the start
  of \<open>s\<close>, takes the first alternative that matches in each group, rejects text
  left over, and builds a date from the three numbers, which rejects year 0 and a
  day the month does not have.
\<close>

definition is_digit :: "char \<Rightarrow> bool" where
  "is_digit c = (48 \<le> (of_char c :: nat) \<and> (of_char c :: nat) \<le> 57)"

definition digit_val :: "char \<Rightarrow> nat" where
  "digit_val c = (of_char c :: nat) - 48"

definition digit_in :: "nat \<Rightarrow> nat \<Rightarrow> char \<Rightarrow> bool" where
  "digit_in lo hi c = (is_digit c \<and> lo \<le> digit_val c \<and> digit_val c \<le> hi)"

fun match_year :: "string \<Rightarrow> (nat \<times> string) option" where
  "match_year (a # b # c # d # r) =
     (if is_digit a \<and> is_digit b \<and> is_digit c \<and> is_digit d
      then Some (1000 * digit_val a + 100 * digit_val b + 10 * digit_val c + digit_val d, r)
      else None)"
| "match_year _ = None"

fun match_month :: "string \<Rightarrow> (nat \<times> string) option" where
  "match_month (a # b # r) =
     (if a = CHR ''1'' \<and> digit_in 0 2 b then Some (10 + digit_val b, r)
      else if a = CHR ''0'' \<and> digit_in 1 9 b then Some (digit_val b, r)
      else if digit_in 1 9 a then Some (digit_val a, b # r)
      else None)"
| "match_month [a] = (if digit_in 1 9 a then Some (digit_val a, []) else None)"
| "match_month [] = None"

fun match_day :: "string \<Rightarrow> (nat \<times> string) option" where
  "match_day (a # b # r) =
     (if a = CHR ''3'' \<and> digit_in 0 1 b then Some (30 + digit_val b, r)
      else if digit_in 1 2 a \<and> is_digit b then Some (10 * digit_val a + digit_val b, r)
      else if a = CHR ''0'' \<and> digit_in 1 9 b then Some (digit_val b, r)
      else if digit_in 1 9 a then Some (digit_val a, b # r)
      else if a = CHR '' '' \<and> digit_in 1 9 b then Some (digit_val b, r)
      else None)"
| "match_day [a] = (if digit_in 1 9 a then Some (digit_val a, []) else None)"
| "match_day [] = None"

fun match_hyphen :: "string \<Rightarrow> string option" where
  "match_hyphen (c # r) = (if c = CHR ''-'' then Some r else None)"
| "match_hyphen [] = None"

definition is_leap :: "nat \<Rightarrow> bool" where
  "is_leap y = (y mod 4 = 0 \<and> (y mod 100 \<noteq> 0 \<or> y mod 400 = 0))"

definition days_in_month :: "nat \<Rightarrow> nat \<Rightarrow> nat" where
  "days_in_month y m =
     (if m = 2 then (if is_leap y then 29 else 28)
      else if m = 4 \<or> m = 6 \<or> m = 9 \<or> m = 11 then 30 else 31)"

text \<open>The check of the \<open>date(year, month, day)\<close> constructor.\<close>

definition calendar_date :: "nat \<Rightarrow> nat \<Rightarrow> nat \<Rightarrow> bool" where
  "calendar_date y m d =
     (1 \<le> y \<and> y \<le> 9999 \<and> 1 \<le> m \<and> m \<le> 12 \<and> 1 \<le> d \<and> d \<le> days_in_month y m)"

definition strptime :: "string \<Rightarrow> (nat \<times> nat \<times> nat) option" where
  "strptime s =
     (case match_year s of None \<Rightarrow> None | Some (y, r1) \<Rightarrow>
      case match_hyphen r1 of None \<Rightarrow> None | Some r2 \<Rightarrow>
      case match_month r2 of None \<Rightarrow> None | Some (m, r3) \<Rightarrow>
      case match_hyphen r3 of None \<Rightarrow> None | Some r4 \<Rightarrow>
      case match_day r4 of None \<Rightarrow> None | Some (d, r5) \<Rightarrow>
      if r5 \<noteq> [] then None
      else if calendar_date y m d then Some (y, m, d) else None)"

section \<open>The expense entity (models.py)\<close>

datatype error =
    ValueError string
  | KeyError string
  | OSError
  | CorruptedDataFile
  | ErrorReadingExpenses error
  | ErrorWritingToFile error
  | ErrorWritingExpenses error

record expense =
  expense_id :: string
  date :: string
  category :: string
  amount :: pyfloat
  "note" :: string
  currency :: string

definition validate_date :: "string \<Rightarrow> error + string" where
  "validate_date d =
     (case strptime d of
        None \<Rightarrow> Inl (ValueError ''date must be YYYY-MM-DD'')
      | Some _ \<Rightarrow> Inr d)"

definition validate_category :: "string \<Rightarrow> error + string" where
  "validate_category c =
     (if c = [] \<or> strip c = [] then Inl (ValueError ''category cannot be empty'')
      else Inr (lower (strip c)))"

definition validate_amount :: "pyvalue \<Rightarrow> error + pyfloat" where
  "validate_amount a =
     (case py_float a of
        Inl _ \<Rightarrow> Inl (ValueError ''amount must be a valid number'')
      | Inr f \<Rightarrow>
          if float_le f (Fin 0) then Inl (ValueError ''amount must be > 0'')
          else Inr f)"

text \<open>
  \<open>_generate_id\<close> reads the clock; \<open>now\<close> is the text
  \<open>datetime.now().strftime("%H%M%S%f")\<close> at that moment.
\<close>

definition generate_id :: "string \<Rightarrow> string \<Rightarrow> string" where
  "generate_id now d = ''EXP-'' @ remove_char CHR ''-'' d @ ''-'' @ take 6 now"

text \<open>
  \<open>Expense.__init__\<close>. The three validations run in the order of the source and the
  first one that raises ends the construction. \<open>expense_id\<close> is \<open>None\<close> by default, and
  an empty id is falsy like \<open>None\<close>.
\<close>

definition Expense_init ::
  "string \<Rightarrow> string \<Rightarrow> string \<Rightarrow> pyvalue \<Rightarrow> string \<Rightarrow> string \<Rightarrow> string option \<Rightarrow> error + expense"
where
  "Expense_init now date0 category0 amount0 note0 currency0 id0 =
     (case validate_date date0 of Inl e \<Rightarrow> Inl e | Inr d \<Rightarrow>
      case validate_category category0 of Inl e \<Rightarrow> Inl e | Inr c \<Rightarrow>
      case validate_amount amount0 of Inl e \<Rightarrow> Inl e | Inr a \<Rightarrow>
      Inr \<lparr> expense_id = (case id0 of
                              Some i \<Rightarrow> if i \<noteq> [] then i else generate_id now d
                            | None \<Rightarrow> generate_id now d),
            date = d, category = c, amount = a, note = note0, currency = currency0 \<rparr>)"

text \<open>
  The flat mapping of \<open>to_dict\<close> and \<open>from_dict\<close>. The model covers mappings whose
  values have the types \<open>to_dict\<close> writes (text, and for the amount whatever
  \<open>float\<close> is applied to); \<open>None\<close> is a key that is absent. Other keys are never read.
\<close>

record expense_dict =
  id_key :: "string option"
  date_key :: "string option"
  category_key :: "string option"
  amount_key :: "pyvalue option"
  note_key :: "string option"
  currency_key :: "string option"

definition to_dict :: "expense \<Rightarrow> expense_dict" where
  "to_dict e =
     \<lparr> id_key = Some (expense_id e), date_key = Some (date e),
       category_key = Some (category e), amount_key = Some (Num (amount e)),
       note_key = Some (note e), currency_key = Some (currency e) \<rparr>"

definition from_dict :: "string \<Rightarrow> expense_dict \<Rightarrow> error + expense" where
  "from_dict now data =
     (case date_key data of None \<Rightarrow> Inl (KeyError ''date'') | Some d \<Rightarrow>
      case category_key data of None \<Rightarrow> Inl (KeyError ''category'') | Some c \<Rightarrow>
      case amount_key data of None \<Rightarrow> Inl (KeyError ''amount'') | Some a \<Rightarrow>
      Expense_init now d c a
        (case note_key data of None \<Rightarrow> [] | Some n \<Rightarrow> n)
        (case currency_key data of None \<Rightarrow> ''BDT'' | Some cu \<Rightarrow> cu)
        (id_key data))"

text \<open>An expense that passes the three validations as it stands and has an id.\<close>

definition well_formed :: "expense \<Rightarrow> bool" where
  "well_formed e =
     (validate_date (date e) = Inr (date e) \<and>
      validate_category (category e) = Inr (category e) \<and>
      validate_amount (Num (amount e)) = Inr (amount e) \<and>
      expense_id e \<noteq> [])"

section \<open>The expense store (storage.py)\<close>

text \<open>
  The store file holds JSON text. The model keeps what \<open>json.load\<close> makes of it: a
  document of one of the two shapes the loader accepts (a bare array, or an object
  with optional \<open>version\<close> and \<open>expenses\<close>), or text that \<open>json.load\<close> rejects.
  \<open>json.dump\<close> followed by \<open>json.load\<close> gives the document back. The data
  directory is taken to exist.
\<close>

datatype document =
    Bare "expense_dict list"
  | Versioned "int option" "expense_dict list option"

datatype file_state = Missing | Garbled | Holds document

text \<open>
  What the file system does to one \<open>open(path, 'w')\<close> followed by \<open>json.dump\<close>:
  nothing goes wrong; the open fails, before the file is touched; or the open
  succeeds, which empties the file, and the dump is interrupted, which leaves
  only the part of the text written so far. Such a part of an object's text is
  never a complete JSON text.
\<close>

datatype io_fault = NoFault | OpenFails | WriteFails

text \<open>
  The surroundings of one call of the store: the clock reading taken while the
  \<open>i\<close>-th record is rebuilt, whether reading the file fails, and the fate of the
  write that creates a missing file and of the rewrite.
\<close>

record env =
  clock :: "nat \<Rightarrow> string"
  read_fails :: bool
  create_fault :: io_fault
  write_fault :: io_fault

definition VERSION :: int where
  "VERSION = 1"

definition write_data :: "io_fault \<Rightarrow> document \<Rightarrow> file_state \<Rightarrow> (error + unit) \<times> file_state" where
  "write_data flt data f =
     (case flt of
        NoFault \<Rightarrow> (Inr (), Holds data)
      | OpenFails \<Rightarrow> (Inl (ErrorWritingToFile OSError), f)
      | WriteFails \<Rightarrow> (Inl (ErrorWritingToFile OSError), Garbled))"

definition ensure_file_exists :: "io_fault \<Rightarrow> file_state \<Rightarrow> (error + unit) \<times> file_state" where
  "ensure_file_exists flt f =
     (if f = Missing then write_data flt (Versioned (Some VERSION) (Some [])) f
      else (Inr (), f))"

text \<open>The list comprehension over \<open>from_dict\<close>: the first record that raises ends it.\<close>

fun from_dicts :: "(nat \<Rightarrow> string) \<Rightarrow> nat \<Rightarrow> expense_dict list \<Rightarrow> error + expense list" where
  "from_dicts clk i [] = Inr []"
| "from_dicts clk i (d # ds) =
     (case from_dict (clk i) d of
        Inl e \<Rightarrow> Inl e
      | Inr x \<Rightarrow>
          (case from_dicts clk (Suc i) ds of
             Inl e \<Rightarrow> Inl e
           | Inr xs \<Rightarrow> Inr (x # xs)))"

definition expense_list_of :: "document \<Rightarrow> expense_dict list" where
  "expense_list_of data =
     (case data of
        Bare l \<Rightarrow> l
      | Versioned v None \<Rightarrow> []
      | Versioned v (Some l) \<Rightarrow> l)"

definition load_expenses :: "env \<Rightarrow> file_state \<Rightarrow> (error + expense list) \<times> file_state" where
  "load_expenses ev f =
     (case ensure_file_exists (create_fault ev) f of
        (Inl e, f1) \<Rightarrow> (Inl e, f1)
      | (Inr _, f1) \<Rightarrow>
          if read_fails ev then (Inl (ErrorReadingExpenses OSError), f1)
          else
            (case f1 of
               Missing \<Rightarrow> (Inl (ErrorReadingExpenses OSError), f1)
             | Garbled \<Rightarrow> (Inl CorruptedDataFile, f1)
             | Holds data \<Rightarrow>
                 (case from_dicts (clock ev) 0 (expense_list_of data) of
                    Inl e \<Rightarrow> (Inl (ErrorReadingExpenses e), f1)
                  | Inr expenses \<Rightarrow> (Inr expenses, f1))))"

definition write_expenses :: "io_fault \<Rightarrow> expense list \<Rightarrow> file_state \<Rightarrow> (error + unit) \<times> file_state" where
  "write_expenses flt expenses f =
     (case write_data flt (Versioned (Some VERSION) (Some (map to_dict expenses))) f of
        (Inl e, f1) \<Rightarrow> (Inl (ErrorWritingExpenses e), f1)
      | (Inr u, f1) \<Rightarrow> (Inr u, f1))"

definition save_expense :: "env \<Rightarrow> expense \<Rightarrow> file_state \<Rightarrow> (error + unit) \<times> file_state" where
  "save_expense ev e f =
     (case load_expenses ev f of
        (Inl err, f1) \<Rightarrow> (Inl err, f1)
      | (Inr expenses, f1) \<Rightarrow> write_expenses (write_fault ev) (expenses @ [e]) f1)"

definition save_all_expenses :: "io_fault \<Rightarrow> expense list \<Rightarrow> file_state \<Rightarrow> (error + unit) \<times> file_state" where
  "save_all_expenses flt expenses f = write_expenses flt expenses f"

definition delete_expense :: "env \<Rightarrow> string \<Rightarrow> file_state \<Rightarrow> (error + bool) \<times> file_state" where
  "delete_expense ev i f =
     (case load_expenses ev f of
        (Inl err, f1) \<Rightarrow> (Inl err, f1)
      | (Inr expenses, f1) \<Rightarrow>
          (let initial_count = length expenses;
               kept = filter (\<lambda>exp. expense_id exp \<noteq> i) expenses
           in if length kept = initial_count then (Inr False, f1)
              else
                (case write_expenses (write_fault ev) kept f1 of
                   (Inl err, f2) \<Rightarrow> (Inl err, f2)
                 | (Inr _, f2) \<Rightarrow> (Inr True, f2))))"

text \<open>The loop of \<open>update_expense\<close>: the first entry with the id is replaced.\<close>

fun replace_first :: "string \<Rightarrow> expense \<Rightarrow> expense list \<Rightarrow> bool \<times> expense list" where
  "replace_first i u [] = (False, [])"
| "replace_first i u (x # xs) =
     (if expense_id x = i then (True, u # xs)
      else (case replace_first i u xs of (found, ys) \<Rightarrow> (found, x # ys)))"

definition storage_update_expense ::
  "env \<Rightarrow> string \<Rightarrow> expense \<Rightarrow> file_state \<Rightarrow> (error + bool) \<times> file_state"
where
  "storage_update_expense ev i updated f =
     (case load_expenses ev f of
        (Inl err, f1) \<Rightarrow> (Inl err, f1)
      | (Inr expenses, f1) \<Rightarrow>
          (case replace_first i updated expenses of
             (False, _) \<Rightarrow> (Inr False, f1)
           | (True, ys) \<Rightarrow>
               (case write_expenses (write_fault ev) ys f1 of
                  (Inl err, f2) \<Rightarrow> (Inl err, f2)
                | (Inr _, f2) \<Rightarrow> (Inr True, f2))))"

definition get_expense_by_id ::
  "env \<Rightarrow> string \<Rightarrow> file_state \<Rightarrow> (error + expense option) \<times> file_state"
where
  "get_expense_by_id ev i f =
     (case load_expenses ev f of
        (Inl err, f1) \<Rightarrow> (Inl err, f1)
      | (Inr expenses, f1) \<Rightarrow> (Inr (find (\<lambda>exp. expense_id exp = i) expenses), f1))"

section \<open>The service and its query engine (service.py)\<close>

text \<open>Logging has no effect on results or on the store and is left out.\<close>

subsection \<open>Filters\<close>

text \<open>
  Each \<open>if\<close> block of \<open>_apply_filters\<close> is one stage. A text filter is applied when
  it is truthy (neither \<open>None\<close> nor empty), an amount bound when it is not \<open>None\<close>.
\<close>

definition by_month :: "string option \<Rightarrow> expense list \<Rightarrow> expense list" where
  "by_month month filtered =
     (case month of
        None \<Rightarrow> filtered
      | Some m \<Rightarrow> if m \<noteq> [] then filter (\<lambda>e. startswith (date e) m) filtered else filtered)"

definition by_from_date :: "string option \<Rightarrow> expense list \<Rightarrow> expense list" where
  "by_from_date from_date filtered =
     (case from_date of
        None \<Rightarrow> filtered
      | Some d \<Rightarrow> if d \<noteq> [] then filter (\<lambda>e. date e \<ge> d) filtered else filtered)"

definition by_to_date :: "string option \<Rightarrow> expense list \<Rightarrow> expense list" where
  "by_to_date to_date filtered =
     (case to_date of
        None \<Rightarrow> filtered
      | Some d \<Rightarrow> if d \<noteq> [] then filter (\<lambda>e. date e \<le> d) filtered else filtered)"

definition by_category :: "string option \<Rightarrow> expense list \<Rightarrow> expense list" where
  "by_category cat filtered =
     (case cat of
        None \<Rightarrow> filtered
      | Some c \<Rightarrow>
          if c \<noteq> [] then filter (\<lambda>e. lower (category e) = lower c) filtered else filtered)"

definition by_min_amount :: "pyfloat option \<Rightarrow> expense list \<Rightarrow> expense list" where
  "by_min_amount min_amount filtered =
     (case min_amount of
        None \<Rightarrow> filtered
      | Some a \<Rightarrow> filter (\<lambda>e. float_ge (amount e) a) filtered)"

definition by_max_amount :: "pyfloat option \<Rightarrow> expense list \<Rightarrow> expense list" where
  "by_max_amount max_amount filtered =
     (case max_amount of
        None \<Rightarrow> filtered
      | Some a \<Rightarrow> filter (\<lambda>e. float_le (amount e) a) filtered)"

definition apply_filters ::
  "expense list \<Rightarrow> string option \<Rightarrow> string option \<Rightarrow> string option \<Rightarrow> string option \<Rightarrow>
   pyfloat option \<Rightarrow> pyfloat option \<Rightarrow> expense list"
where
  "apply_filters expenses month from_date to_date cat min_amount max_amount =
     by_max_amount max_amount
       (by_min_amount min_amount
         (by_category cat
           (by_to_date to_date
             (by_from_date from_date
               (by_month month expenses)))))"

subsection \<open>Sorting\<close>

text \<open>
  \<open>sorted(xs, key=k, reverse=r)\<close> is a stable sort that compares keys with \<open><\<close> only;
  with \<open>reverse\<close> the list is reversed, sorted and reversed again. Where \<open><\<close> is a
  strict linear order on the keys every stable sort returns the same list, here the
  one insertion from the left builds. What the library's algorithm returns on keys
  that \<open><\<close> does not order (a NaN among them) is not modelled.
\<close>

fun insort_lt :: "('k \<Rightarrow> 'k \<Rightarrow> bool) \<Rightarrow> ('a \<Rightarrow> 'k) \<Rightarrow> 'a \<Rightarrow> 'a list \<Rightarrow> 'a list" where
  "insort_lt lt k x [] = [x]"
| "insort_lt lt k x (y # ys) =
     (if lt (k x) (k y) then x # y # ys else y # insort_lt lt k x ys)"

definition stable_sort :: "('k \<Rightarrow> 'k \<Rightarrow> bool) \<Rightarrow> ('a \<Rightarrow> 'k) \<Rightarrow> 'a list \<Rightarrow> 'a list" where
  "stable_sort lt k xs = foldl (\<lambda>acc x. insort_lt lt k x acc) [] xs"

definition sorted_py :: "('k \<Rightarrow> 'k \<Rightarrow> bool) \<Rightarrow> ('a \<Rightarrow> 'k) \<Rightarrow> bool \<Rightarrow> 'a list \<Rightarrow> 'a list" where
  "sorted_py lt k reverse xs =
     (if reverse then rev (stable_sort lt k (rev xs)) else stable_sort lt k xs)"

definition sort_expenses :: "expense list \<Rightarrow> string \<Rightarrow> bool \<Rightarrow> expense list" where
  "sort_expenses expenses sort_by descending =
     (if sort_by = ''date'' then sorted_py (<) date descending expenses
      else if sort_by = ''amount'' then sorted_py float_lt amount descending expenses
      else if sort_by = ''category'' then sorted_py (<) category descending expenses
      else expenses)"

subsection \<open>Summary\<close>

record summary =
  count :: nat
  grand_total :: pyfloat
  totals_by_category :: "string \<rightharpoonup> pyfloat"

text \<open>The built-in \<open>sum\<close>: from 0, left to right.\<close>

definition py_sum :: "pyfloat list \<Rightarrow> pyfloat" where
  "py_sum xs = foldl float_add (Fin 0) xs"

text \<open>
  One round of the loop over the expenses. After the first assignment the key is
  present, so the lookup of \<open>+=\<close> always finds it.
\<close>

definition add_to_totals :: "(string \<rightharpoonup> pyfloat) \<Rightarrow> expense \<Rightarrow> (string \<rightharpoonup> pyfloat)" where
  "add_to_totals totals e =
     (let cat = category e;
          totals1 = (if totals cat = None then totals(cat \<mapsto> Fin 0) else totals)
      in case totals1 cat of
           None \<Rightarrow> totals1
         | Some t \<Rightarrow> totals1(cat \<mapsto> float_add t (amount e)))"

definition calculate_summary :: "expense list \<Rightarrow> summary" where
  "calculate_summary expenses =
     \<lparr> count = length expenses,
       grand_total = py_sum (map amount expenses),
       totals_by_category = foldl add_to_totals Map.empty expenses \<rparr>"

subsection \<open>Operations\<close>

definition add_expense :: "env \<Rightarrow> expense \<Rightarrow> file_state \<Rightarrow> (error + expense) \<times> file_state" where
  "add_expense ev e f =
     (case save_expense ev e f of
        (Inl err, f1) \<Rightarrow> (Inl err, f1)
      | (Inr _, f1) \<Rightarrow> (Inr e, f1))"

text \<open>\<open>expenses[:limit]\<close>; a negative limit counts from the end.\<close>

definition slice_to :: "int \<Rightarrow> 'a list \<Rightarrow> 'a list" where
  "slice_to n xs = (if n < 0 then take (nat (int (length xs) + n)) xs else take (nat n) xs)"

definition list_expenses ::
  "env \<Rightarrow> string option \<Rightarrow> string option \<Rightarrow> pyfloat option \<Rightarrow> pyfloat option \<Rightarrow>
   string option \<Rightarrow> bool \<Rightarrow> int option \<Rightarrow> file_state \<Rightarrow> (error + expense list) \<times> file_state"
where
  "list_expenses ev month cat min_amount max_amount sort_by descending limit f =
     (case load_expenses ev f of
        (Inl err, f1) \<Rightarrow> (Inl err, f1)
      | (Inr expenses, f1) \<Rightarrow>
          (let filtered = apply_filters expenses month None None cat min_amount max_amount;
               ordered = (case sort_by of
                            None \<Rightarrow> filtered
                          | Some s \<Rightarrow> if s \<noteq> [] then sort_expenses filtered s descending
                                      else filtered);
               limited = (case limit of
                            None \<Rightarrow> ordered
                          | Some n \<Rightarrow> if n \<noteq> 0 then slice_to n ordered else ordered)
           in (Inr limited, f1)))"

definition summary_of ::
  "env \<Rightarrow> string option \<Rightarrow> string option \<Rightarrow> string option \<Rightarrow> string option \<Rightarrow>
   file_state \<Rightarrow> (error + summary) \<times> file_state"
where
  "summary_of ev month from_date to_date cat f =
     (case load_expenses ev f of
        (Inl err, f1) \<Rightarrow> (Inl err, f1)
      | (Inr expenses, f1) \<Rightarrow>
          (Inr (calculate_summary (apply_filters expenses month from_date to_date cat None None)),
           f1))"

text \<open>
  The constructor call of \<open>update_expense\<close>: every field the caller gave as a truthy
  value (for the note: as anything but \<open>None\<close>) replaces the existing one, and the
  merged record is validated again.
\<close>

definition updated_expense ::
  "string \<Rightarrow> expense \<Rightarrow> pyfloat option \<Rightarrow> string option \<Rightarrow> string option \<Rightarrow> string option \<Rightarrow>
   error + expense"
where
  "updated_expense now existing amount0 note0 category0 date0 =
     Expense_init now
       (case date0 of None \<Rightarrow> date existing
                    | Some d \<Rightarrow> if d \<noteq> [] then d else date existing)
       (case category0 of None \<Rightarrow> category existing
                        | Some c \<Rightarrow> if c \<noteq> [] then c else category existing)
       (case amount0 of None \<Rightarrow> Num (amount existing)
                      | Some a \<Rightarrow> if float_truthy a then Num a else Num (amount existing))
       (case note0 of None \<Rightarrow> note existing | Some n \<Rightarrow> n)
       (currency existing)
       (Some (expense_id existing))"

text \<open>
  \<open>ExpenseService.update_expense\<close>. The lookup and the replacement are two calls of
  the store, each with its own surroundings.
\<close>

definition update_expense ::
  "string \<Rightarrow> env \<Rightarrow> env \<Rightarrow> string \<Rightarrow> pyfloat option \<Rightarrow> string option \<Rightarrow> string option \<Rightarrow>
   string option \<Rightarrow> file_state \<Rightarrow> (error + bool) \<times> file_state"
where
  "update_expense now ev1 ev2 i amount0 note0 category0 date0 f =
     (case get_expense_by_id ev1 i f of
        (Inl err, f1) \<Rightarrow> (Inl err, f1)
      | (Inr None, f1) \<Rightarrow> (Inr False, f1)
      | (Inr (Some existing), f1) \<Rightarrow>
          (case updated_expense now existing amount0 note0 category0 date0 of
             Inl err \<Rightarrow> (Inl err, f1)
           | Inr updated \<Rightarrow> storage_update_expense ev2 i updated f1))"




subsection \<open>Sample expenses\<close>

abbreviation ex_food :: expense where
  "ex_food \<equiv> \<lparr> expense_id = ''EXP-20240105-101112'', date = ''2024-01-05'',
       category = ''food'', amount = Fin 10, note = ''lunch'', currency = ''BDT'' \<rparr>"

abbreviation ex_bus :: expense where
  "ex_bus \<equiv> \<lparr> expense_id = ''EXP-20240301-101113'', date = ''2024-03-01'',
       category = ''transport'', amount = Fin 5, note = [], currency = ''BDT'' \<rparr>"

abbreviation ex_dinner :: expense where
  "ex_dinner \<equiv> \<lparr> expense_id = ''EXP-20240302-101114'', date = ''2024-03-02'',
       category = ''food'', amount = Fin 10, note = ''dinner'', currency = ''BDT'' \<rparr>"

subsection \<open>The filters as predicates\<close>

text \<open>
  The test each filter stands for. A text filter is in force when it is neither
  \<open>None\<close> nor empty, an amount bound when it is not \<open>None\<close>; a filter that is not in
  force lets every expense pass.
\<close>

definition month_test :: "string option \<Rightarrow> expense \<Rightarrow> bool" where
  "month_test month e = (case month of None \<Rightarrow> True | Some m \<Rightarrow> m = [] \<or> startswith (date e) m)"

definition from_date_test :: "string option \<Rightarrow> expense \<Rightarrow> bool" where
  "from_date_test from_date e = (case from_date of None \<Rightarrow> True | Some d \<Rightarrow> d = [] \<or> d \<le> date e)"

definition to_date_test :: "string option \<Rightarrow> expense \<Rightarrow> bool" where
  "to_date_test to_date e = (case to_date of None \<Rightarrow> True | Some d \<Rightarrow> d = [] \<or> date e \<le> d)"

definition category_test :: "string option \<Rightarrow> expense \<Rightarrow> bool" where
  "category_test cat e =
     (case cat of None \<Rightarrow> True | Some c \<Rightarrow> c = [] \<or> lower (category e) = lower c)"

definition min_amount_test :: "pyfloat option \<Rightarrow> expense \<Rightarrow> bool" where
  "min_amount_test min_amount e =
     (case min_amount of None \<Rightarrow> True | Some a \<Rightarrow> float_ge (amount e) a)"

definition max_amount_test :: "pyfloat option \<Rightarrow> expense \<Rightarrow> bool" where
  "max_amount_test max_amount e =
     (case max_amount of None \<Rightarrow> True | Some a \<Rightarrow> float_le (amount e) a)"

definition matches ::
  "string option \<Rightarrow> string option \<Rightarrow> string option \<Rightarrow> string option \<Rightarrow>
   pyfloat option \<Rightarrow> pyfloat option \<Rightarrow> expense \<Rightarrow> bool"
where
  "matches month from_date to_date cat min_amount max_amount e =
     (month_test month e \<and> from_date_test from_date e \<and> to_date_test to_date e \<and>
      category_test cat e \<and> min_amount_test min_amount e \<and> max_amount_test max_amount e)"

definition filter_stages ::
  "string option \<Rightarrow> string option \<Rightarrow> string option \<Rightarrow> string option \<Rightarrow>
   pyfloat option \<Rightarrow> pyfloat option \<Rightarrow> (expense list \<Rightarrow> expense list) list"
where
  "filter_stages month from_date to_date cat min_amount max_amount =
     [by_month month, by_from_date from_date, by_to_date to_date, by_category cat,
      by_min_amount min_amount, by_max_amount max_amount]"

text \<open>An entry with the id of \<open>ex_food\<close>.\<close>

abbreviation ex_snack :: expense where
  "ex_snack \<equiv> \<lparr> expense_id = ''EXP-20240105-101112'', date = ''2024-01-05'',
       category = ''food'', amount = Fin 3, note = ''snack'', currency = ''BDT'' \<rparr>"

text \<open>
  Surroundings in which nothing fails, and surroundings in which the rewrite is
  interrupted.
\<close>

abbreviation calm :: env where
  "calm \<equiv> \<lparr> clock = (\<lambda>i. ''101500000000''), read_fails = False,
              create_fault = NoFault, write_fault = NoFault \<rparr>"

abbreviation stormy :: env where
  "stormy \<equiv> \<lparr> clock = (\<lambda>i. ''101500000000''), read_fails = False,
                create_fault = NoFault, write_fault = WriteFails \<rparr>"

section \<open>Properties of the expense entity\<close>

lemma of_char_less_256: "(of_char c :: nat) < 256"
  by (cases c) (simp add: of_char_def horner_sum_eq_sum)

lemma lower_char_idem: "lower_char (lower_char c) = lower_char c"
  using of_char_less_256[of c] by (auto simp: lower_char_def Let_def)

lemma isspace_lower_char: "isspace (lower_char c) = isspace c"
  using of_char_less_256[of c] by (auto simp: lower_char_def isspace_def Let_def)

lemma lower_idem: "lower (lower s) = lower s"
  by (simp add: lower_def lower_char_idem)

lemma strip_ends:
  assumes "strip s \<noteq> []"
  shows "\<not> isspace (hd (strip s))" and "\<not> isspace (last (strip s))"
proof -
  let ?t = "dropWhile isspace s"
  let ?u = "dropWhile isspace (rev ?t)"
  from assms have u: "?u \<noteq> []" by (simp add: strip_def)
  then have t: "?t \<noteq> []" by (metis dropWhile.simps(1) rev.simps(1))
  have "last (strip s) = hd ?u" using u by (simp add: strip_def last_rev)
  moreover have "\<not> isspace (hd ?u)" using u by (rule hd_dropWhile)
  ultimately show "\<not> isspace (last (strip s))" by simp
  obtain ws where "rev ?t = ws @ ?u"
    by (metis takeWhile_dropWhile_id)
  then have "last (rev ?t) = last ?u" using u by (metis last_appendR)
  then have "hd (strip s) = hd ?t" using u t by (simp add: strip_def hd_rev last_rev)
  moreover have "\<not> isspace (hd ?t)" using t by (rule hd_dropWhile)
  ultimately show "\<not> isspace (hd (strip s))" by simp
qed

lemma strip_fixed:
  assumes "s \<noteq> []" "\<not> isspace (hd s)" "\<not> isspace (last s)"
  shows "strip s = s"
proof -
  have 1: "dropWhile isspace s = s" using assms(1,2) by (cases s) auto
  have "rev s \<noteq> []" "\<not> isspace (hd (rev s))" using assms(1,3) by (simp_all add: hd_rev)
  then have 2: "dropWhile isspace (rev s) = rev s" by (cases "rev s") auto
  show ?thesis by (simp add: strip_def 1 2)
qed

lemma validate_category_fixed:
  assumes "validate_category c = Inr c'"
  shows "c' \<noteq> []" and "strip c' = c'" and "lower c' = c'"
    and "validate_category c' = Inr c'"
proof -
  from assms have ne: "strip c \<noteq> []" and c': "c' = lower (strip c)"
    by (auto simp: validate_category_def split: if_splits)
  show 1: "c' \<noteq> []" using ne by (simp add: c' lower_def)
  have "\<not> isspace (hd c')" "\<not> isspace (last c')"
    using strip_ends[OF ne] ne
    by (simp_all add: c' lower_def hd_map last_map isspace_lower_char)
  then show 2: "strip c' = c'" using 1 by (simp add: strip_fixed)
  show 3: "lower c' = c'" by (simp add: c' lower_idem)
  show "validate_category c' = Inr c'" using 1 2 3 by (simp add: validate_category_def)
qed

lemma validate_date_fixed:
  "validate_date d = Inr d' \<Longrightarrow> d' = d \<and> validate_date d' = Inr d'"
  by (auto simp: validate_date_def split: option.splits)

lemma validate_date_calendar:
  assumes "validate_date d = Inr d'"
  shows "\<exists>y m dd. strptime d' = Some (y, m, dd) \<and> calendar_date y m dd"
proof -
  from assms obtain y m dd where p: "strptime d = Some (y, m, dd)" and d': "d' = d"
    by (auto simp: validate_date_def split: option.splits)
  from p have "calendar_date y m dd"
    by (auto simp: strptime_def split: option.splits if_splits)
  with p d' show ?thesis by blast
qed

lemma validate_amount_fixed:
  "validate_amount a = Inr f \<Longrightarrow> validate_amount (Num f) = Inr f"
  by (cases a) (auto simp: validate_amount_def split: if_splits)

lemma validate_amount_positive_or_nan:
  "validate_amount a = Inr f \<Longrightarrow> float_gt f (Fin 0) \<or> f = NaN"
  by (cases a; cases f)
     (auto simp: validate_amount_def float_le_def float_gt_def split: if_splits)

lemma Expense_init_fields:
  assumes "Expense_init now d c a n cu i = Inr e"
  shows "validate_date d = Inr (date e)" and "validate_category c = Inr (category e)"
    and "validate_amount a = Inr (amount e)" and "note e = n" and "currency e = cu"
    and "expense_id e =
           (case i of Some j \<Rightarrow> if j \<noteq> [] then j else generate_id now (date e)
                    | None \<Rightarrow> generate_id now (date e))"
  using assms by (auto simp: Expense_init_def split: sum.splits option.splits)

lemma Expense_init_id_nonempty:
  assumes "Expense_init now d c a n cu i = Inr e"
  shows "expense_id e \<noteq> []"
  using Expense_init_fields(6)[OF assms]
  by (auto simp: generate_id_def split: option.splits)

text \<open>
  The order of the validations: a bad date is reported whatever the other fields
  are, a bad category when the date is good, a bad amount when both are good.
\<close>

lemma Expense_init_order:
  "Expense_init now d c a n cu i =
     (case validate_date d of Inl e \<Rightarrow> Inl e | Inr d' \<Rightarrow>
      case validate_category c of Inl e \<Rightarrow> Inl e | Inr c' \<Rightarrow>
      case validate_amount a of Inl e \<Rightarrow> Inl e | Inr a' \<Rightarrow>
      Expense_init now d c a n cu i)"
  by (simp add: Expense_init_def split: sum.splits)

lemma Expense_init_first_failure:
  shows "validate_date d = Inl e \<Longrightarrow> Expense_init now d c a n cu i = Inl e"
    and "validate_date d = Inr d' \<Longrightarrow> validate_category c = Inl e \<Longrightarrow>
           Expense_init now d c a n cu i = Inl e"
    and "validate_date d = Inr d' \<Longrightarrow> validate_category c = Inr c' \<Longrightarrow>
           validate_amount a = Inl e \<Longrightarrow> Expense_init now d c a n cu i = Inl e"
  by (simp_all add: Expense_init_def)

text \<open>
  What holds of every expense the constructor returns: the category is its own
  trimmed lowercase form and not empty, the date is a day of the calendar, and the
  amount is greater than 0 or is NaN.
\<close>

lemma Expense_init_invariants:
  assumes "Expense_init now d c a n cu i = Inr e"
  shows "category e \<noteq> []" and "strip (lower (category e)) = category e"
    and "\<exists>y m dd. strptime (date e) = Some (y, m, dd) \<and> calendar_date y m dd"
    and "float_gt (amount e) (Fin 0) \<or> amount e = NaN"
proof -
  note f = Expense_init_fields[OF assms]
  show "category e \<noteq> []" by (rule validate_category_fixed(1)[OF f(2)])
  show "strip (lower (category e)) = category e"
    using validate_category_fixed(2,3)[OF f(2)] by simp
  show "\<exists>y m dd. strptime (date e) = Some (y, m, dd) \<and> calendar_date y m dd"
    by (rule validate_date_calendar[OF f(1)])
  show "float_gt (amount e) (Fin 0) \<or> amount e = NaN"
    by (rule validate_amount_positive_or_nan[OF f(3)])
qed

lemma Expense_init_well_formed:
  assumes "Expense_init now d c a n cu i = Inr e"
  shows "well_formed e"
proof -
  note f = Expense_init_fields[OF assms]
  have "validate_date (date e) = Inr (date e)"
    using validate_date_fixed[OF f(1)] f(1) by simp
  moreover have "validate_category (category e) = Inr (category e)"
    by (rule validate_category_fixed(4)[OF f(2)])
  moreover have "validate_amount (Num (amount e)) = Inr (amount e)"
    by (rule validate_amount_fixed[OF f(3)])
  ultimately show ?thesis
    using Expense_init_id_nonempty[OF assms] by (simp add: well_formed_def)
qed

lemma well_formed_init:
  assumes "well_formed e"
  shows "Expense_init now (date e) (category e) (Num (amount e)) n (currency e)
           (Some (expense_id e)) = Inr (e\<lparr>note := n\<rparr>)"
  using assms by (simp add: well_formed_def Expense_init_def)

lemma well_formed_from_dict:
  assumes "well_formed e"
  shows "from_dict now (to_dict e) = Inr e"
  using well_formed_init[OF assms, of now "note e"] by (simp add: from_dict_def to_dict_def)

text \<open>
  Claim C1. The constructor validates the date, then the category, then the amount,
  and every expense it returns has an amount greater than 0, a category equal to
  its trimmed lowercase form and a date of the calendar. The order and the
  properties of category and date hold (\<open>Expense_init_first_failure\<close>,
  \<open>Expense_init_invariants\<close>), but the amount check \<open>amount <= 0\<close> is false for NaN, so
  the constructor returns an expense whose amount is NaN, which is not greater
  than 0.
\<close>

theorem Expense_init_accepts_nan:
  "Expense_init ''101112123456'' ''2024-01-05'' ''food'' (Num NaN) [] ''BDT'' None =
     Inr \<lparr> expense_id = ''EXP-20240105-101112'', date = ''2024-01-05'',
           category = ''food'', amount = NaN, note = [], currency = ''BDT'' \<rparr>
   \<and> \<not> float_gt NaN (Fin 0)"
  by code_simp

text \<open>
  Claim C5. For every expense \<open>e\<close> the constructor returns, \<open>from_dict (to_dict e)\<close>
  succeeds and is \<open>e\<close>, field by field: validating the stored date, the normalized
  category and the amount again changes nothing, and the id is kept. Equality is
  equality of values.
\<close>

theorem from_dict_to_dict_roundtrip:
  assumes "Expense_init now d c a n cu i = Inr e"
  shows "from_dict now' (to_dict e) = Inr e
       \<and> validate_category (category e) = Inr (category e)"
proof -
  have wf: "well_formed e" by (rule Expense_init_well_formed[OF assms])
  have "from_dict now' (to_dict e) = Inr e" by (rule well_formed_from_dict[OF wf])
  moreover have "validate_category (category e) = Inr (category e)"
    using wf by (simp add: well_formed_def)
  ultimately show ?thesis by simp
qed

theorem from_dict_to_dict_roundtrip_witness:
  "Expense_init ''101112123456'' ''2024-01-05'' ''  Food '' (Num (Fin (25 / 2))) ''lunch''
      ''BDT'' None =
     Inr \<lparr> expense_id = ''EXP-20240105-101112'', date = ''2024-01-05'',
           category = ''food'', amount = Fin (25 / 2), note = ''lunch'',
           currency = ''BDT'' \<rparr>
   \<and> from_dict ''235959000000''
       (to_dict \<lparr> expense_id = ''EXP-20240105-101112'', date = ''2024-01-05'',
                  category = ''food'', amount = Fin (25 / 2), note = ''lunch'',
                  currency = ''BDT'' \<rparr>) =
     Inr \<lparr> expense_id = ''EXP-20240105-101112'', date = ''2024-01-05'',
           category = ''food'', amount = Fin (25 / 2), note = ''lunch'',
           currency = ''BDT'' \<rparr>"
proof -
  have h: "Expense_init ''101112123456'' ''2024-01-05'' ''  Food '' (Num (Fin (25 / 2)))
             ''lunch'' ''BDT'' None =
           Inr \<lparr> expense_id = ''EXP-20240105-101112'', date = ''2024-01-05'',
                 category = ''food'', amount = Fin (25 / 2), note = ''lunch'',
                 currency = ''BDT'' \<rparr>"
    by code_simp
  show ?thesis
    using h from_dict_to_dict_roundtrip[OF h, of "''235959000000''"] by simp
qed

section \<open>Properties of the summary\<close>







section \<open>Properties of sorting\<close>


















section \<open>Properties of filtering\<close>

lemma stage_filters_apply:
  "by_month m xs = filter (month_test m) xs"
  "by_from_date f xs = filter (from_date_test f) xs"
  "by_to_date t xs = filter (to_date_test t) xs"
  "by_category c xs = filter (category_test c) xs"
  "by_min_amount mn xs = filter (min_amount_test mn) xs"
  "by_max_amount mx xs = filter (max_amount_test mx) xs"
  by (auto simp: by_month_def by_from_date_def by_to_date_def by_category_def
      by_min_amount_def by_max_amount_def month_test_def from_date_test_def to_date_test_def
      category_test_def min_amount_test_def max_amount_test_def
      split: option.splits intro!: filter_cong)

lemma stage_filters:
  "by_month m = filter (month_test m)"
  "by_from_date f = filter (from_date_test f)"
  "by_to_date t = filter (to_date_test t)"
  "by_category c = filter (category_test c)"
  "by_min_amount mn = filter (min_amount_test mn)"
  "by_max_amount mx = filter (max_amount_test mx)"
  by (rule ext, rule stage_filters_apply)+

lemma fold_filters:
  assumes "\<forall>s\<in>set ps. \<exists>P. s = filter P"
  shows "fold (\<lambda>s. s) ps xs = filter (\<lambda>x. \<forall>s\<in>set ps. s [x] = [x]) xs"
  using assms
proof (induction ps arbitrary: xs)
  case Nil
  then show ?case by simp
next
  case (Cons s ps)
  then obtain P where s: "s = filter P" by auto
  have "fold (\<lambda>s. s) (s # ps) xs = fold (\<lambda>s. s) ps (filter P xs)" by (simp add: s)
  also have "\<dots> = filter (\<lambda>x. \<forall>s\<in>set ps. s [x] = [x]) (filter P xs)"
    using Cons by simp
  also have "\<dots> = filter (\<lambda>x. \<forall>s\<in>set (s # ps). s [x] = [x]) xs"
    by (auto simp: s intro: filter_cong)
  finally show ?case .
qed

lemma filter_stages_are_filters:
  "\<forall>s\<in>set (filter_stages m f t c mn mx). \<exists>P. s = filter P"
  unfolding filter_stages_def stage_filters by auto

lemma apply_filters_fold:
  "apply_filters xs m f t c mn mx = fold (\<lambda>s. s) (filter_stages m f t c mn mx) xs"
  by (simp add: apply_filters_def filter_stages_def)

lemma apply_filters_matches:
  "apply_filters xs m f t c mn mx = filter (matches m f t c mn mx) xs"
  unfolding apply_filters_def stage_filters
  by (auto simp: matches_def fun_eq_iff intro: filter_cong)

text \<open>
  Claim C7. The filters compose as a conjunction: the result holds exactly the
  expenses that pass every filter in force (month prefix of the date, inclusive
  date range, category equal up to case, inclusive amount range), in their
  original order; with no filter the list is returned as it is; applying the
  stages in any order gives the same list; and filtering by month alone returns
  exactly the expenses whose date starts with the prefix. As the claim is written
  every supplied filter is applied; the code applies a text filter only when it is
  not empty, so an expense of category \<open>food\<close> passes the supplied category \<open>""\<close>
  (the counterexample below).
\<close>

theorem apply_filters_intersection:
  "apply_filters xs m f t c mn mx = filter (matches m f t c mn mx) xs
   \<and> (\<forall>ps. mset ps = mset (filter_stages m f t c mn mx) \<longrightarrow>
          fold (\<lambda>stage. stage) ps xs = apply_filters xs m f t c mn mx)
   \<and> apply_filters xs None None None None None None = xs
   \<and> apply_filters xs (Some mo) None None None None None =
       filter (\<lambda>e. startswith (date e) mo) xs"
proof -
  have 2: "fold (\<lambda>stage. stage) ps xs = apply_filters xs m f t c mn mx"
    if "mset ps = mset (filter_stages m f t c mn mx)" for ps
  proof -
    from that have eq: "set ps = set (filter_stages m f t c mn mx)" by (rule mset_eq_setD)
    then have "\<forall>s\<in>set ps. \<exists>P. s = filter P" using filter_stages_are_filters by simp
    then show ?thesis
      unfolding apply_filters_fold
      by (simp add: fold_filters[OF filter_stages_are_filters] fold_filters eq)
  qed
  have 3: "apply_filters xs None None None None None None = xs"
    by (simp add: apply_filters_def by_month_def by_from_date_def by_to_date_def by_category_def
        by_min_amount_def by_max_amount_def)
  have 4: "apply_filters xs (Some mo) None None None None None =
       filter (\<lambda>e. startswith (date e) mo) xs"
    by (simp add: apply_filters_def by_month_def by_from_date_def by_to_date_def by_category_def
        by_min_amount_def by_max_amount_def startswith_def)
  show ?thesis using apply_filters_matches 2 3 4 by blast
qed

theorem apply_filters_intersection_witness:
  "mset [by_max_amount None, by_category (Some ''FOOD''), by_min_amount (Some (Fin 10)),
         by_to_date None, by_month (Some ''2024-03''), by_from_date None] =
     mset (filter_stages (Some ''2024-03'') None None (Some ''FOOD'') (Some (Fin 10)) None)
   \<and> apply_filters [ex_food, ex_bus, ex_dinner]
        (Some ''2024-03'') None None (Some ''FOOD'') (Some (Fin 10)) None = [ex_dinner]
   \<and> fold (\<lambda>stage. stage)
        [by_max_amount None, by_category (Some ''FOOD''), by_min_amount (Some (Fin 10)),
         by_to_date None, by_month (Some ''2024-03''), by_from_date None]
        [ex_food, ex_bus, ex_dinner] = [ex_dinner]"
proof -
  have p: "mset [by_max_amount None, by_category (Some ''FOOD''), by_min_amount (Some (Fin 10)),
                 by_to_date None, by_month (Some ''2024-03''), by_from_date None] =
           mset (filter_stages (Some ''2024-03'') None None (Some ''FOOD'') (Some (Fin 10)) None)"
    by (simp add: filter_stages_def)
  have e: "apply_filters [ex_food, ex_bus, ex_dinner]
             (Some ''2024-03'') None None (Some ''FOOD'') (Some (Fin 10)) None = [ex_dinner]"
    by code_simp
  show ?thesis
    using p e
      apply_filters_intersection[of "[ex_food, ex_bus, ex_dinner]" "Some ''2024-03''" None None
        "Some ''FOOD''" "Some (Fin 10)" None]
    by metis
qed

text \<open>
  The supplied category \<open>""\<close> is not applied: the expense of category \<open>food\<close> is
  returned although its category is not the empty string.
\<close>

theorem apply_filters_empty_category_counterexample:
  "apply_filters [ex_food] None None None (Some []) None None = [ex_food]
   \<and> lower (category ex_food) \<noteq> lower []"
  by code_simp

section \<open>Properties of the store\<close>

lemma from_dict_well_formed:
  "from_dict now d = Inr e \<Longrightarrow> well_formed e"
  by (auto simp: from_dict_def split: option.splits dest: Expense_init_well_formed)

lemma from_dicts_well_formed:
  "from_dicts clk i ds = Inr xs \<Longrightarrow> \<forall>e\<in>set xs. well_formed e"
proof (induction ds arbitrary: i xs)
  case Nil
  then show ?case by simp
next
  case (Cons d ds)
  then show ?case
    by (auto split: sum.splits dest: from_dict_well_formed)
qed

lemma from_dicts_to_dict:
  "\<forall>e\<in>set xs. well_formed e \<Longrightarrow> from_dicts clk i (map to_dict xs) = Inr xs"
  by (induction xs arbitrary: i) (simp_all add: well_formed_from_dict)

lemma load_expenses_Holds:
  "load_expenses ev (Holds d) =
     (if read_fails ev then (Inl (ErrorReadingExpenses OSError), Holds d)
      else case from_dicts (clock ev) 0 (expense_list_of d) of
             Inl e \<Rightarrow> (Inl (ErrorReadingExpenses e), Holds d)
           | Inr xs \<Rightarrow> (Inr xs, Holds d))"
  by (simp add: load_expenses_def ensure_file_exists_def)

lemma load_expenses_Garbled:
  "load_expenses ev Garbled =
     (Inl (if read_fails ev then ErrorReadingExpenses OSError else CorruptedDataFile), Garbled)"
  by (simp add: load_expenses_def ensure_file_exists_def)

lemma load_expenses_success:
  assumes "load_expenses ev f = (Inr xs, f1)"
  shows "\<exists>d. f1 = Holds d" and "f \<noteq> Missing \<Longrightarrow> f1 = f" and "\<forall>e\<in>set xs. well_formed e"
    and "\<not> read_fails ev"
proof -
  have *: "(\<exists>d. f1 = Holds d) \<and> (f \<noteq> Missing \<longrightarrow> f1 = f) \<and> (\<forall>e\<in>set xs. well_formed e)
           \<and> \<not> read_fails ev"
    using assms
    by (cases f; cases "create_fault ev")
       (auto simp: load_expenses_def ensure_file_exists_def write_data_def
             split: if_splits sum.splits dest: from_dicts_well_formed)
  show "\<exists>d. f1 = Holds d" "f \<noteq> Missing \<Longrightarrow> f1 = f" "\<forall>e\<in>set xs. well_formed e" "\<not> read_fails ev"
    using * by auto
qed

lemma load_written:
  assumes "\<forall>e\<in>set ys. well_formed e" "\<not> read_fails ev"
  shows "load_expenses ev (Holds (Versioned (Some VERSION) (Some (map to_dict ys)))) =
           (Inr ys, Holds (Versioned (Some VERSION) (Some (map to_dict ys))))"
  using assms by (simp add: load_expenses_Holds expense_list_of_def from_dicts_to_dict)

lemma write_expenses_cases:
  "write_expenses NoFault ys f = (Inr (), Holds (Versioned (Some VERSION) (Some (map to_dict ys))))"
  "write_expenses OpenFails ys f = (Inl (ErrorWritingExpenses (ErrorWritingToFile OSError)), f)"
  "write_expenses WriteFails ys f = (Inl (ErrorWritingExpenses (ErrorWritingToFile OSError)), Garbled)"
  by (simp_all add: write_expenses_def write_data_def)

text \<open>
  Claim C2. When the rewrite of \<open>save_expense\<close> fails, the claim wants the prior
  content of the file intact. The file is opened with mode \<open>'w'\<close>, which empties it,
  and there is no temporary file: if the open itself fails the file is as the
  load left it, but if the dump is interrupted the file is left with an
  incomplete text, the prior content is gone, and every later load fails. When
  nothing fails the file holds the loaded expenses followed by the new one.
\<close>

theorem save_expense_write_outcomes:
  assumes "load_expenses ev f = (Inr xs, f1)"
  shows "(write_fault ev = NoFault \<longrightarrow>
            save_expense ev e f =
              (Inr (), Holds (Versioned (Some VERSION) (Some (map to_dict (xs @ [e]))))))
       \<and> (write_fault ev = OpenFails \<longrightarrow>
            save_expense ev e f = (Inl (ErrorWritingExpenses (ErrorWritingToFile OSError)), f1))
       \<and> (write_fault ev = WriteFails \<longrightarrow>
            save_expense ev e f = (Inl (ErrorWritingExpenses (ErrorWritingToFile OSError)), Garbled)
            \<and> (\<forall>ev'. \<exists>err. load_expenses ev' Garbled = (Inl err, Garbled)))
       \<and> (f \<noteq> Missing \<longrightarrow> f1 = f)"
  using assms load_expenses_success(2)[OF assms]
  by (auto simp: save_expense_def write_expenses_cases load_expenses_Garbled)

text \<open>
  A store that holds one expense, and an append whose dump is interrupted: the
  append fails, the file no longer holds what it held, and the next load fails.
\<close>

theorem save_expense_torn_counterexample:
  "load_expenses stormy (Holds (Versioned (Some 1) (Some [to_dict ex_food]))) =
     (Inr [ex_food], Holds (Versioned (Some 1) (Some [to_dict ex_food])))
   \<and> save_expense stormy ex_bus (Holds (Versioned (Some 1) (Some [to_dict ex_food]))) =
     (Inl (ErrorWritingExpenses (ErrorWritingToFile OSError)), Garbled)
   \<and> Garbled \<noteq> Holds (Versioned (Some 1) (Some [to_dict ex_food]))
   \<and> load_expenses calm Garbled = (Inl CorruptedDataFile, Garbled)"
  by code_simp

theorem save_expense_write_outcomes_witness:
  "load_expenses stormy (Holds (Versioned (Some 1) (Some [to_dict ex_food]))) =
     (Inr [ex_food], Holds (Versioned (Some 1) (Some [to_dict ex_food])))
   \<and> write_fault stormy = WriteFails
   \<and> save_expense stormy ex_bus (Holds (Versioned (Some 1) (Some [to_dict ex_food]))) =
     (Inl (ErrorWritingExpenses (ErrorWritingToFile OSError)), Garbled)"
proof -
  have l: "load_expenses stormy (Holds (Versioned (Some 1) (Some [to_dict ex_food]))) =
     (Inr [ex_food], Holds (Versioned (Some 1) (Some [to_dict ex_food])))"
    by code_simp
  show ?thesis
    using l save_expense_write_outcomes[OF l, of ex_bus] by simp
qed

lemma length_filter_id:
  "(length (filter (\<lambda>e. expense_id e \<noteq> i) xs) = length xs) = (i \<notin> expense_id ` set xs)"
proof -
  have "(length (filter (\<lambda>e. expense_id e \<noteq> i) xs) = length xs) =
        (filter (\<lambda>e. expense_id e \<noteq> i) xs = xs)"
    by (metis length_filter_less nat_less_le filter_True length_filter_le)
  also have "\<dots> = (\<forall>e\<in>set xs. expense_id e \<noteq> i)" by (simp add: filter_id_conv)
  also have "\<dots> = (i \<notin> expense_id ` set xs)" by auto
  finally show ?thesis .
qed

text \<open>
  Claim C3. For a store that loads: deleting an id that no entry has returns
  \<open>False\<close> and does not rewrite the file (a file that existed is unchanged);
  deleting an id that is present returns \<open>True\<close> and the file then holds, in their
  order and unchanged, exactly the entries with another id, which a later load
  reads back. The claim says that exactly one entry is removed; the code removes
  every entry with the id, which is one entry only when the id occurs once. Ids
  are not checked for uniqueness, and two entries of the same date added at the
  same time of day get the same id.
\<close>

theorem delete_expense_removes_all_with_id:
  assumes "load_expenses ev f = (Inr xs, f1)"
  shows "(i \<notin> expense_id ` set xs \<longrightarrow> delete_expense ev i f = (Inr False, f1))
       \<and> (f \<noteq> Missing \<longrightarrow> f1 = f)
       \<and> (i \<in> expense_id ` set xs \<and> write_fault ev = NoFault \<longrightarrow>
            delete_expense ev i f =
              (Inr True,
               Holds (Versioned (Some VERSION)
                 (Some (map to_dict (filter (\<lambda>e. expense_id e \<noteq> i) xs)))))
            \<and> (\<forall>ev'. \<not> read_fails ev' \<longrightarrow>
                  fst (load_expenses ev'
                         (Holds (Versioned (Some VERSION)
                           (Some (map to_dict (filter (\<lambda>e. expense_id e \<noteq> i) xs)))))) =
                    Inr (filter (\<lambda>e. expense_id e \<noteq> i) xs)))
       \<and> length (filter (\<lambda>e. expense_id e \<noteq> i) xs) + length (filter (\<lambda>e. expense_id e = i) xs) =
           length xs"
proof -
  have wf: "\<forall>e\<in>set (filter (\<lambda>e. expense_id e \<noteq> i) xs). well_formed e"
    using load_expenses_success(3)[OF assms] by simp
  have 1: "delete_expense ev i f = (Inr False, f1)" if "i \<notin> expense_id ` set xs"
    using that assms by (simp add: delete_expense_def Let_def length_filter_id)
  have 2: "f \<noteq> Missing \<longrightarrow> f1 = f"
    using load_expenses_success(2)[OF assms] by simp
  have 3: "delete_expense ev i f =
              (Inr True,
               Holds (Versioned (Some VERSION)
                 (Some (map to_dict (filter (\<lambda>e. expense_id e \<noteq> i) xs)))))"
    if "i \<in> expense_id ` set xs" "write_fault ev = NoFault"
    using that assms
    by (simp add: delete_expense_def Let_def length_filter_id write_expenses_cases)
  have 4: "fst (load_expenses ev'
                 (Holds (Versioned (Some VERSION)
                    (Some (map to_dict (filter (\<lambda>e. expense_id e \<noteq> i) xs)))))) =
             Inr (filter (\<lambda>e. expense_id e \<noteq> i) xs)"
    if "\<not> read_fails ev'" for ev'
    using load_written[OF wf that] by simp
  have 5: "length (filter (\<lambda>e. expense_id e \<noteq> i) xs) + length (filter (\<lambda>e. expense_id e = i) xs) =
           length xs"
    using sum_length_filter_compl[of "\<lambda>e. expense_id e = i" xs] by simp
  show ?thesis using 1 2 3 4 5 by blast
qed

text \<open>
  A store with three entries, two of them with the same id: deleting that id
  removes both and leaves one entry.
\<close>

theorem delete_expense_duplicate_id_counterexample:
  "load_expenses calm (Holds (Versioned (Some 1) (Some [to_dict ex_food, to_dict ex_snack, to_dict ex_bus]))) =
     (Inr [ex_food, ex_snack, ex_bus],
      Holds (Versioned (Some 1) (Some [to_dict ex_food, to_dict ex_snack, to_dict ex_bus])))
   \<and> delete_expense calm ''EXP-20240105-101112''
       (Holds (Versioned (Some 1) (Some [to_dict ex_food, to_dict ex_snack, to_dict ex_bus]))) =
     (Inr True, Holds (Versioned (Some 1) (Some [to_dict ex_bus])))"
  by code_simp

theorem delete_expense_removes_all_with_id_witness:
  "load_expenses calm (Holds (Versioned (Some 1) (Some [to_dict ex_food, to_dict ex_bus]))) =
     (Inr [ex_food, ex_bus], Holds (Versioned (Some 1) (Some [to_dict ex_food, to_dict ex_bus])))
   \<and> delete_expense calm ''EXP-20240105-101112''
       (Holds (Versioned (Some 1) (Some [to_dict ex_food, to_dict ex_bus]))) =
     (Inr True, Holds (Versioned (Some 1) (Some [to_dict ex_bus])))
   \<and> delete_expense calm ''nonexistent''
       (Holds (Versioned (Some 1) (Some [to_dict ex_food, to_dict ex_bus]))) =
     (Inr False, Holds (Versioned (Some 1) (Some [to_dict ex_food, to_dict ex_bus])))"
proof -
  have l: "load_expenses calm (Holds (Versioned (Some 1) (Some [to_dict ex_food, to_dict ex_bus]))) =
     (Inr [ex_food, ex_bus], Holds (Versioned (Some 1) (Some [to_dict ex_food, to_dict ex_bus])))"
    by code_simp
  show ?thesis
    using l delete_expense_removes_all_with_id[OF l, of "''EXP-20240105-101112''"]
      delete_expense_removes_all_with_id[OF l, of "''nonexistent''"]
    by (simp add: VERSION_def)
qed

section \<open>Properties of updating\<close>

lemma find_split:
  assumes "find (\<lambda>e. expense_id e = i) xs = Some ex"
  shows "\<exists>pre post. xs = pre @ ex # post \<and> (\<forall>e\<in>set pre. expense_id e \<noteq> i) \<and> expense_id ex = i"
  using assms
proof (induction xs)
  case Nil
  then show ?case by simp
next
  case (Cons x xs)
  show ?case
  proof (cases "expense_id x = i")
    case True
    with Cons.prems have "x = ex" by simp
    with True have "x # xs = [] @ ex # xs \<and> (\<forall>e\<in>set []. expense_id e \<noteq> i) \<and> expense_id ex = i"
      by simp
    then show ?thesis by blast
  next
    case False
    with Cons obtain pre post where
      "xs = pre @ ex # post" "\<forall>e\<in>set pre. expense_id e \<noteq> i" "expense_id ex = i"
      by auto
    with False have "x # xs = (x # pre) @ ex # post \<and> (\<forall>e\<in>set (x # pre). expense_id e \<noteq> i)
        \<and> expense_id ex = i"
      by simp
    then show ?thesis by blast
  qed
qed

lemma replace_first_split:
  assumes "\<forall>e\<in>set pre. expense_id e \<noteq> i" "expense_id ex = i"
  shows "replace_first i u (pre @ ex # post) = (True, pre @ u # post)"
  using assms by (induction pre) auto

lemma updated_expense_amount_zero:
  "updated_expense now ex (Some (Fin 0)) n c d = updated_expense now ex None n c d"
  by (simp add: updated_expense_def float_truthy_def)

lemma updated_expense_empty_category:
  "updated_expense now ex a n (Some []) d = updated_expense now ex a n None d"
  by (simp add: updated_expense_def)

lemma updated_expense_empty_date:
  "updated_expense now ex a n c (Some []) = updated_expense now ex a n c None"
  by (simp add: updated_expense_def)

lemma updated_expense_note_only:
  assumes "well_formed ex"
  shows "updated_expense now ex None (Some n) None None = Inr (ex\<lparr>note := n\<rparr>)"
    and "updated_expense now ex None None None None = Inr ex"
  using well_formed_init[OF assms, of now n] well_formed_init[OF assms, of now "note ex"]
  by (simp_all add: updated_expense_def)

lemma validate_amount_same: "validate_amount (Num f) = Inr g \<Longrightarrow> g = f"
  by (auto simp: validate_amount_def split: if_splits)

lemma updated_expense_keeps_amount:
  assumes "updated_expense now ex None n c d = Inr u"
  shows "amount u = amount ex"
  using Expense_init_fields(3)[OF assms[unfolded updated_expense_def]]
  by (simp add: validate_amount_same)

lemma update_expense_found:
  assumes l1: "load_expenses ev1 f = (Inr xs, f1)"
    and l2: "load_expenses ev2 f1 = (Inr xs, f1)"
    and found: "find (\<lambda>e. expense_id e = i) xs = Some ex"
    and nf: "write_fault ev2 = NoFault"
    and upd: "updated_expense now ex a n c d = Inr u"
  shows "\<exists>pre post. xs = pre @ ex # post \<and> (\<forall>e\<in>set pre. expense_id e \<noteq> i) \<and>
           update_expense now ev1 ev2 i a n c d f =
             (Inr True, Holds (Versioned (Some VERSION) (Some (map to_dict (pre @ u # post)))))"
proof -
  from find_split[OF found] obtain pre post where
    xs: "xs = pre @ ex # post" and pre: "\<forall>e\<in>set pre. expense_id e \<noteq> i" and ex: "expense_id ex = i"
    by blast
  have r: "replace_first i u xs = (True, pre @ u # post)"
    unfolding xs by (rule replace_first_split[OF pre ex])
  have "update_expense now ev1 ev2 i a n c d f =
          (Inr True, Holds (Versioned (Some VERSION) (Some (map to_dict (pre @ u # post)))))"
    by (simp add: update_expense_def get_expense_by_id_def l1 found upd
        storage_update_expense_def l2 r nf write_expenses_cases)
  with xs pre show ?thesis by blast
qed

lemma update_expense_amount_zero:
  "update_expense now ev1 ev2 i (Some (Fin 0)) n c d f = update_expense now ev1 ev2 i None n c d f"
  by (simp add: update_expense_def updated_expense_amount_zero
      split: prod.splits sum.splits option.splits)

lemma update_expense_empty_category:
  "update_expense now ev1 ev2 i a n (Some []) d f = update_expense now ev1 ev2 i a n None d f"
  by (simp add: update_expense_def updated_expense_empty_category
      split: prod.splits sum.splits option.splits)

lemma update_expense_empty_date:
  "update_expense now ev1 ev2 i a n c (Some []) f = update_expense now ev1 ev2 i a n c None f"
  by (simp add: update_expense_def updated_expense_empty_date
      split: prod.splits sum.splits option.splits)

lemma found_well_formed:
  assumes "load_expenses ev f = (Inr xs, f1)" "find (\<lambda>e. expense_id e = i) xs = Some ex"
  shows "well_formed ex"
proof -
  from find_split[OF assms(2)] have "ex \<in> set xs" by auto
  with load_expenses_success(3)[OF assms(1)] show ?thesis by blast
qed

text \<open>
  Claim C8. For every stored expense, an update that supplies only a new note
  succeeds, and the record written back in its place has the new note and the
  date, category, amount, currency and id of the stored expense; the entries
  before and after it are written back as they were. The expense is the first
  entry with the id in the list both calls of the store read, and the rewrite
  does not fail.
\<close>

theorem update_expense_note_only:
  assumes "load_expenses ev1 f = (Inr xs, f1)"
    and "load_expenses ev2 f1 = (Inr xs, f1)"
    and "find (\<lambda>e. expense_id e = i) xs = Some ex"
    and "write_fault ev2 = NoFault"
  shows "\<exists>pre post u. xs = pre @ ex # post \<and> (\<forall>e\<in>set pre. expense_id e \<noteq> i) \<and>
           update_expense now ev1 ev2 i None (Some n) None None f =
             (Inr True, Holds (Versioned (Some VERSION) (Some (map to_dict (pre @ u # post)))))
           \<and> note u = n \<and> date u = date ex \<and> category u = category ex
           \<and> amount u = amount ex \<and> currency u = currency ex \<and> expense_id u = expense_id ex"
proof -
  have u: "updated_expense now ex None (Some n) None None = Inr (ex\<lparr>note := n\<rparr>)"
    by (rule updated_expense_note_only(1)[OF found_well_formed[OF assms(1,3)]])
  from update_expense_found[OF assms u] obtain pre post where
    "xs = pre @ ex # post" "\<forall>e\<in>set pre. expense_id e \<noteq> i"
    "update_expense now ev1 ev2 i None (Some n) None None f =
       (Inr True, Holds (Versioned (Some VERSION) (Some (map to_dict (pre @ ex\<lparr>note := n\<rparr> # post)))))"
    by blast
  then have "xs = pre @ ex # post \<and> (\<forall>e\<in>set pre. expense_id e \<noteq> i) \<and>
           update_expense now ev1 ev2 i None (Some n) None None f =
             (Inr True, Holds (Versioned (Some VERSION)
                (Some (map to_dict (pre @ ex\<lparr>note := n\<rparr> # post)))))
           \<and> note (ex\<lparr>note := n\<rparr>) = n \<and> date (ex\<lparr>note := n\<rparr>) = date ex
           \<and> category (ex\<lparr>note := n\<rparr>) = category ex
           \<and> amount (ex\<lparr>note := n\<rparr>) = amount ex \<and> currency (ex\<lparr>note := n\<rparr>) = currency ex
           \<and> expense_id (ex\<lparr>note := n\<rparr>) = expense_id ex"
    by simp
  then show ?thesis by blast
qed

theorem update_expense_note_only_witness:
  "load_expenses calm (Holds (Versioned (Some 1) (Some [to_dict ex_food, to_dict ex_bus]))) =
     (Inr [ex_food, ex_bus], Holds (Versioned (Some 1) (Some [to_dict ex_food, to_dict ex_bus])))
   \<and> find (\<lambda>e. expense_id e = ''EXP-20240301-101113'') [ex_food, ex_bus] = Some ex_bus
   \<and> write_fault calm = NoFault
   \<and> update_expense ''101600000000'' calm calm ''EXP-20240301-101113'' None (Some ''metro'') None None
       (Holds (Versioned (Some 1) (Some [to_dict ex_food, to_dict ex_bus]))) =
     (Inr True,
      Holds (Versioned (Some 1) (Some [to_dict ex_food, to_dict (ex_bus\<lparr>note := ''metro''\<rparr>)])))"
proof -
  have l: "load_expenses calm (Holds (Versioned (Some 1) (Some [to_dict ex_food, to_dict ex_bus]))) =
     (Inr [ex_food, ex_bus], Holds (Versioned (Some 1) (Some [to_dict ex_food, to_dict ex_bus])))"
    by code_simp
  have fd: "find (\<lambda>e. expense_id e = ''EXP-20240301-101113'') [ex_food, ex_bus] = Some ex_bus"
    by simp
  have nf: "write_fault calm = NoFault" by simp
  have e: "update_expense ''101600000000'' calm calm ''EXP-20240301-101113'' None (Some ''metro'')
       None None (Holds (Versioned (Some 1) (Some [to_dict ex_food, to_dict ex_bus]))) =
     (Inr True,
      Holds (Versioned (Some 1) (Some [to_dict ex_food, to_dict (ex_bus\<lparr>note := ''metro''\<rparr>)])))"
    by code_simp
  from update_expense_note_only[OF l l fd nf, of "''101600000000''" "''metro''"]
  have "\<exists>pre post u. [ex_food, ex_bus] = pre @ ex_bus # post \<and>
      update_expense ''101600000000'' calm calm ''EXP-20240301-101113'' None (Some ''metro'')
       None None (Holds (Versioned (Some 1) (Some [to_dict ex_food, to_dict ex_bus]))) =
      (Inr True, Holds (Versioned (Some VERSION) (Some (map to_dict (pre @ u # post)))))"
    by blast
  then show ?thesis using l fd nf e by blast
qed

text \<open>
  Claim C4. An amount of exactly 0 is treated as not provided: the update with
  amount 0 is the update with no amount, whatever the other arguments are; the
  merged record, when it is built, has the amount of the existing expense; and
  for a stored expense the update with amount 0 alone writes the list back
  unchanged.
\<close>

theorem update_expense_zero_amount:
  "update_expense now ev1 ev2 i (Some (Fin 0)) n c d f = update_expense now ev1 ev2 i None n c d f
   \<and> updated_expense now ex (Some (Fin 0)) n c d = updated_expense now ex None n c d
   \<and> (\<forall>u. updated_expense now ex (Some (Fin 0)) n c d = Inr u \<longrightarrow> amount u = amount ex)
   \<and> (load_expenses ev1 f = (Inr xs, f1) \<and> load_expenses ev2 f1 = (Inr xs, f1) \<and>
       find (\<lambda>e. expense_id e = i) xs = Some ex \<and> write_fault ev2 = NoFault \<longrightarrow>
         update_expense now ev1 ev2 i (Some (Fin 0)) None None None f =
           (Inr True, Holds (Versioned (Some VERSION) (Some (map to_dict xs)))))"
proof -
  have 3: "amount u = amount ex" if "updated_expense now ex (Some (Fin 0)) n c d = Inr u" for u
    using that updated_expense_keeps_amount[of now ex n c d u]
    by (simp add: updated_expense_amount_zero)
  have 4: "update_expense now ev1 ev2 i (Some (Fin 0)) None None None f =
           (Inr True, Holds (Versioned (Some VERSION) (Some (map to_dict xs))))"
    if l1: "load_expenses ev1 f = (Inr xs, f1)" and l2: "load_expenses ev2 f1 = (Inr xs, f1)"
      and fd: "find (\<lambda>e. expense_id e = i) xs = Some ex" and nf: "write_fault ev2 = NoFault"
  proof -
    have u: "updated_expense now ex None None None None = Inr ex"
      by (rule updated_expense_note_only(2)[OF found_well_formed[OF l1 fd]])
    from update_expense_found[OF l1 l2 fd nf u] obtain pre post where
      "xs = pre @ ex # post"
      "update_expense now ev1 ev2 i None None None None f =
         (Inr True, Holds (Versioned (Some VERSION) (Some (map to_dict (pre @ ex # post)))))"
      by blast
    then show ?thesis by (simp add: update_expense_amount_zero)
  qed
  show ?thesis
    using update_expense_amount_zero updated_expense_amount_zero 3 4 by blast
qed

theorem update_expense_zero_amount_witness:
  "updated_expense ''101600000000'' ex_bus (Some (Fin 0)) (Some ''metro'') None None =
     Inr (ex_bus\<lparr>note := ''metro''\<rparr>)
   \<and> amount (ex_bus\<lparr>note := ''metro''\<rparr>) = amount ex_bus
   \<and> load_expenses calm (Holds (Versioned (Some 1) (Some [to_dict ex_food, to_dict ex_bus]))) =
     (Inr [ex_food, ex_bus], Holds (Versioned (Some 1) (Some [to_dict ex_food, to_dict ex_bus])))
   \<and> find (\<lambda>e. expense_id e = ''EXP-20240301-101113'') [ex_food, ex_bus] = Some ex_bus
   \<and> write_fault calm = NoFault
   \<and> update_expense ''101600000000'' calm calm ''EXP-20240301-101113'' (Some (Fin 0)) None None None
       (Holds (Versioned (Some 1) (Some [to_dict ex_food, to_dict ex_bus]))) =
     (Inr True, Holds (Versioned (Some 1) (Some [to_dict ex_food, to_dict ex_bus])))"
proof -
  have l: "load_expenses calm (Holds (Versioned (Some 1) (Some [to_dict ex_food, to_dict ex_bus]))) =
     (Inr [ex_food, ex_bus], Holds (Versioned (Some 1) (Some [to_dict ex_food, to_dict ex_bus])))"
    by code_simp
  have fd: "find (\<lambda>e. expense_id e = ''EXP-20240301-101113'') [ex_food, ex_bus] = Some ex_bus"
    by simp
  have nf: "write_fault calm = NoFault" by simp
  have u: "updated_expense ''101600000000'' ex_bus (Some (Fin 0)) (Some ''metro'') None None =
     Inr (ex_bus\<lparr>note := ''metro''\<rparr>)"
    by code_simp
  note t = update_expense_zero_amount[of "''101600000000''" calm calm "''EXP-20240301-101113''"
      "Some ''metro''" None None "Holds (Versioned (Some 1) (Some [to_dict ex_food, to_dict ex_bus]))"
      ex_bus "[ex_food, ex_bus]" "Holds (Versioned (Some 1) (Some [to_dict ex_food, to_dict ex_bus]))"]
  have a: "amount (ex_bus\<lparr>note := ''metro''\<rparr>) = amount ex_bus"
    using t u by blast
  have w: "update_expense ''101600000000'' calm calm ''EXP-20240301-101113'' (Some (Fin 0)) None None None
       (Holds (Versioned (Some 1) (Some [to_dict ex_food, to_dict ex_bus]))) =
     (Inr True, Holds (Versioned (Some VERSION) (Some (map to_dict [ex_food, ex_bus]))))"
    using t l fd nf by blast
  show ?thesis using u a l fd nf w by (simp add: VERSION_def)
qed

text \<open>
  Claim C10. An empty category and an empty date are treated as not provided:
  the update is the update without them, and the merged record keeps the
  category and the date of the stored expense. An empty note replaces the note:
  the merged record has the empty note, and only the note \<open>None\<close> keeps the existing
  one. For a stored expense the update with the empty note alone writes the
  expense back with an empty note, and the update with an empty category and an
  empty date alone writes it back unchanged.
\<close>

theorem update_expense_falsy_fields:
  "update_expense now ev1 ev2 i a n (Some []) d f = update_expense now ev1 ev2 i a n None d f
   \<and> update_expense now ev1 ev2 i a n c (Some []) f = update_expense now ev1 ev2 i a n c None f
   \<and> (well_formed ex \<longrightarrow>
        (\<forall>u. updated_expense now ex a n (Some []) d = Inr u \<longrightarrow> category u = category ex))
   \<and> (\<forall>u. updated_expense now ex a n c (Some []) = Inr u \<longrightarrow> date u = date ex)
   \<and> (\<forall>u. updated_expense now ex a (Some []) c d = Inr u \<longrightarrow> note u = [])
   \<and> (\<forall>u. updated_expense now ex a None c d = Inr u \<longrightarrow> note u = note ex)
   \<and> (load_expenses ev1 f = (Inr xs, f1) \<and> load_expenses ev2 f1 = (Inr xs, f1) \<and>
       find (\<lambda>e. expense_id e = i) xs = Some ex \<and> write_fault ev2 = NoFault \<longrightarrow>
         (\<exists>pre post. xs = pre @ ex # post \<and> (\<forall>e\<in>set pre. expense_id e \<noteq> i) \<and>
            update_expense now ev1 ev2 i None (Some []) None None f =
              (Inr True,
               Holds (Versioned (Some VERSION) (Some (map to_dict (pre @ ex\<lparr>note := []\<rparr> # post)))))
            \<and> update_expense now ev1 ev2 i None None (Some []) (Some []) f =
              (Inr True,
               Holds (Versioned (Some VERSION) (Some (map to_dict (pre @ ex # post)))))))"
proof -
  have 3: "category u = category ex"
    if wf: "well_formed ex" and u: "updated_expense now ex a n (Some []) d = Inr u" for u
  proof -
    have "validate_category (category ex) = Inr (category u)"
      using Expense_init_fields(2)[OF u[unfolded updated_expense_def]] by simp
    moreover have "validate_category (category ex) = Inr (category ex)"
      using wf by (simp add: well_formed_def)
    ultimately show ?thesis by simp
  qed
  have 4: "date u = date ex" if u: "updated_expense now ex a n c (Some []) = Inr u" for u
    using Expense_init_fields(1)[OF u[unfolded updated_expense_def]]
    by (auto dest: validate_date_fixed)
  have 5: "note u = []" if u: "updated_expense now ex a (Some []) c d = Inr u" for u
    using Expense_init_fields(4)[OF u[unfolded updated_expense_def]] by simp
  have 6: "note u = note ex" if u: "updated_expense now ex a None c d = Inr u" for u
    using Expense_init_fields(4)[OF u[unfolded updated_expense_def]] by simp
  have 7: "\<exists>pre post. xs = pre @ ex # post \<and> (\<forall>e\<in>set pre. expense_id e \<noteq> i) \<and>
            update_expense now ev1 ev2 i None (Some []) None None f =
              (Inr True,
               Holds (Versioned (Some VERSION) (Some (map to_dict (pre @ ex\<lparr>note := []\<rparr> # post)))))
            \<and> update_expense now ev1 ev2 i None None (Some []) (Some []) f =
              (Inr True,
               Holds (Versioned (Some VERSION) (Some (map to_dict (pre @ ex # post)))))"
    if l1: "load_expenses ev1 f = (Inr xs, f1)" and l2: "load_expenses ev2 f1 = (Inr xs, f1)"
      and fd: "find (\<lambda>e. expense_id e = i) xs = Some ex" and nf: "write_fault ev2 = NoFault"
  proof -
    note wf = found_well_formed[OF l1 fd]
    from find_split[OF fd] obtain pre post where
      xs: "xs = pre @ ex # post" and pre: "\<forall>e\<in>set pre. expense_id e \<noteq> i"
      and ex: "expense_id ex = i"
      by blast
    have r: "\<And>u. replace_first i u xs = (True, pre @ u # post)"
      unfolding xs by (rule replace_first_split[OF pre ex])
    have a: "update_expense now ev1 ev2 i None (Some []) None None f =
              (Inr True,
               Holds (Versioned (Some VERSION) (Some (map to_dict (pre @ ex\<lparr>note := []\<rparr> # post)))))"
      by (simp add: update_expense_def get_expense_by_id_def l1 fd
          updated_expense_note_only(1)[OF wf] storage_update_expense_def l2 r nf
          write_expenses_cases)
    have b: "update_expense now ev1 ev2 i None None None None f =
              (Inr True, Holds (Versioned (Some VERSION) (Some (map to_dict (pre @ ex # post)))))"
      by (simp add: update_expense_def get_expense_by_id_def l1 fd
          updated_expense_note_only(2)[OF wf] storage_update_expense_def l2 r nf
          write_expenses_cases)
    have "update_expense now ev1 ev2 i None None (Some []) (Some []) f =
          update_expense now ev1 ev2 i None None None None f"
      by (simp add: update_expense_empty_category update_expense_empty_date)
    with xs pre a b show ?thesis by auto
  qed
  show ?thesis
    using update_expense_empty_category update_expense_empty_date 3 4 5 6 7 by blast
qed

theorem update_expense_falsy_fields_witness:
  "well_formed ex_bus
   \<and> updated_expense ''101600000000'' ex_bus None None (Some []) None = Inr ex_bus
   \<and> updated_expense ''101600000000'' ex_bus None None None (Some []) = Inr ex_bus
   \<and> updated_expense ''101600000000'' ex_food None (Some []) None None = Inr (ex_food\<lparr>note := []\<rparr>)
   \<and> note (ex_food\<lparr>note := []\<rparr>) = []
   \<and> updated_expense ''101600000000'' ex_food None None None None = Inr ex_food
   \<and> load_expenses calm (Holds (Versioned (Some 1) (Some [to_dict ex_food, to_dict ex_bus]))) =
     (Inr [ex_food, ex_bus], Holds (Versioned (Some 1) (Some [to_dict ex_food, to_dict ex_bus])))
   \<and> find (\<lambda>e. expense_id e = ''EXP-20240105-101112'') [ex_food, ex_bus] = Some ex_food
   \<and> write_fault calm = NoFault
   \<and> update_expense ''101600000000'' calm calm ''EXP-20240105-101112'' None (Some []) None None
       (Holds (Versioned (Some 1) (Some [to_dict ex_food, to_dict ex_bus]))) =
     (Inr True,
      Holds (Versioned (Some 1) (Some [to_dict (ex_food\<lparr>note := []\<rparr>), to_dict ex_bus])))"
proof -
  have wf: "well_formed ex_bus" by code_simp
  have c: "updated_expense ''101600000000'' ex_bus None None (Some []) None = Inr ex_bus"
    by code_simp
  have d: "updated_expense ''101600000000'' ex_bus None None None (Some []) = Inr ex_bus"
    by code_simp
  have n: "updated_expense ''101600000000'' ex_food None (Some []) None None =
             Inr (ex_food\<lparr>note := []\<rparr>)"
    by code_simp
  have k: "updated_expense ''101600000000'' ex_food None None None None = Inr ex_food"
    by code_simp
  have l: "load_expenses calm (Holds (Versioned (Some 1) (Some [to_dict ex_food, to_dict ex_bus]))) =
     (Inr [ex_food, ex_bus], Holds (Versioned (Some 1) (Some [to_dict ex_food, to_dict ex_bus])))"
    by code_simp
  have fd: "find (\<lambda>e. expense_id e = ''EXP-20240105-101112'') [ex_food, ex_bus] = Some ex_food"
    by simp
  have nf: "write_fault calm = NoFault" by simp
  have e: "update_expense ''101600000000'' calm calm ''EXP-20240105-101112'' None (Some []) None None
       (Holds (Versioned (Some 1) (Some [to_dict ex_food, to_dict ex_bus]))) =
     (Inr True,
      Holds (Versioned (Some 1) (Some [to_dict (ex_food\<lparr>note := []\<rparr>), to_dict ex_bus])))"
    by code_simp
  have "note (ex_food\<lparr>note := []\<rparr>) = []"
    using n update_expense_falsy_fields[where now = "''101600000000''" and ex = ex_food
        and a = None and c = None and d = None]
    by blast
  then show ?thesis using wf c d n k l fd nf e by blast
qed

end
